theory Spec2Isabelle
  imports Complex_Main "HOL-Library.Char_ord" "HOL-Library.List_Lexorder" "HOL-Library.Multiset"
begin

section \<open>StreamingMarkdown: the appearance signal\<close>

text \<open>
  \<^verbatim>\<open>src/frontend/src/components/StreamingMarkdown.tsx\<close>. The component keeps three refs
  (\<^verbatim>\<open>animatedRef\<close>, \<^verbatim>\<open>prevKeyRef\<close>, \<^verbatim>\<open>prevContentRef\<close>) and runs one effect per
  render whose \<^verbatim>\<open>[key, content]\<close> changed. The appearance signal is the call
  \<^verbatim>\<open>setIsUpdating(true)\<close>. An \<^verbatim>\<open>animateKey\<close> is a string or a number; numeric keys are
  taken as integers (a \<^verbatim>\<open>NaN\<close> key, which is unequal to itself, is outside the model).
\<close>

datatype animate_key = KeyStr string | KeyNum int

record props =
  content :: string
  animateKey :: "animate_key option"

record refs =
  animatedRef :: bool
  prevKeyRef :: "animate_key option"
  prevContentRef :: string

text \<open>\<^verbatim>\<open>useRef(false)\<close>, \<^verbatim>\<open>useRef(null)\<close>, \<^verbatim>\<open>useRef("")\<close>.\<close>

definition initial_refs :: refs where
  "initial_refs = \<lparr>animatedRef = False, prevKeyRef = None, prevContentRef = ''''\<rparr>"

text \<open>\<^verbatim>\<open>const key = animateKey ?? content\<close>.\<close>

definition key_of :: "props \<Rightarrow> animate_key" where
  "key_of p = (case animateKey p of Some k \<Rightarrow> k | None \<Rightarrow> KeyStr (content p))"

text \<open>
  One run of the effect body (lines 28--46): the result is whether
  \<^verbatim>\<open>setIsUpdating(true)\<close> was called, and the refs afterwards.
\<close>

definition effect :: "props \<Rightarrow> refs \<Rightarrow> bool \<times> refs" where
  "effect p r =
     (let key = key_of p;
          keyChanged = (prevKeyRef r \<noteq> Some key);
          r1 = (if keyChanged then r\<lparr>animatedRef := False, prevKeyRef := Some key\<rparr> else r);
          hadContent = (length (prevContentRef r1) > 0);
          hasContent = (length (content p) > 0);
          r2 = r1\<lparr>prevContentRef := content p\<rparr>
      in if \<not> animatedRef r2 \<and> hasContent \<and> \<not> hadContent
         then (True, r2\<lparr>animatedRef := True\<rparr>)
         else (False, r2))"

text \<open>
  A sequence of renders: the signal of each update, in order, and the refs at the end.
\<close>

fun signals :: "refs \<Rightarrow> props list \<Rightarrow> bool list" where
  "signals r [] = []"
| "signals r (p # ps) = fst (effect p r) # signals (snd (effect p r)) ps"

fun refs_after :: "refs \<Rightarrow> props list \<Rightarrow> refs" where
  "refs_after r [] = r"
| "refs_after r (p # ps) = refs_after (snd (effect p r)) ps"

definition StreamingMarkdown :: "props list \<Rightarrow> bool list" where
  "StreamingMarkdown ps = signals initial_refs ps"

text \<open>An update that carries the identity \<open>k\<close> and the text \<open>c\<close>.\<close>

definition upd :: "animate_key \<Rightarrow> string \<Rightarrow> props" where
  "upd k c = \<lparr>content = c, animateKey = Some k\<rparr>"

text \<open>
  The statement of the specification, for comparison with the code: the signal fires for an
  identity exactly once, at the first update where that identity's text is non-empty.
  \<open>signal_indices k ps\<close> lists the updates shown under \<open>k\<close> at which the code fires;
  \<open>first_text_index k ps\<close> is the first update under \<open>k\<close> whose text is non-empty.
\<close>

definition signal_indices :: "animate_key \<Rightarrow> props list \<Rightarrow> nat list" where
  "signal_indices k ps =
     filter (\<lambda>i. key_of (ps ! i) = k \<and> StreamingMarkdown ps ! i) [0..<length ps]"

definition first_text_index :: "animate_key \<Rightarrow> props list \<Rightarrow> nat option" where
  "first_text_index k ps =
     (case filter (\<lambda>i. key_of (ps ! i) = k \<and> content (ps ! i) \<noteq> []) [0..<length ps] of
        [] \<Rightarrow> None
      | i # _ \<Rightarrow> Some i)"

definition appearance_once_spec :: "animate_key \<Rightarrow> props list \<Rightarrow> bool" where
  "appearance_once_spec k ps =
     (signal_indices k ps = (case first_text_index k ps of None \<Rightarrow> [] | Some i \<Rightarrow> [i]))"

section \<open>JavaScript numbers\<close>

text \<open>
  A JavaScript number is an IEEE-754 double. The model keeps the three special values and
  takes a finite double as the real number it denotes. Every arithmetic operation
  overflows to an infinity when its exact result lies beyond \<^verbatim>\<open>Number.MAX_VALUE\<close>, and
  follows the IEEE rules on \<^verbatim>\<open>NaN\<close> and the infinities. Rounding inside the finite
  range and the sign of zero are not modelled: a finite result is the exact one, and a
  zero divisor is taken as \<open>+0\<close>.
\<close>

datatype jsnum = Num real | PosInf | NegInf | NaN

definition MAX_VALUE :: real where
  "MAX_VALUE = (2 ^ 53 - 1) * 2 ^ 971"

definition overflow :: "real \<Rightarrow> jsnum" where
  "overflow r = (if r > MAX_VALUE then PosInf else if r < - MAX_VALUE then NegInf else Num r)"

text \<open>\<^verbatim>\<open>Number.isFinite\<close> and \<^verbatim>\<open>Number(v)\<close> on a value that is a number already.\<close>

fun isFinite :: "jsnum \<Rightarrow> bool" where
  "isFinite (Num r) = True"
| "isFinite PosInf = False"
| "isFinite NegInf = False"
| "isFinite NaN = False"

definition Number :: "jsnum \<Rightarrow> jsnum" where
  "Number v = v"

fun js_neg :: "jsnum \<Rightarrow> jsnum" where
  "js_neg (Num a) = Num (- a)"
| "js_neg PosInf = NegInf"
| "js_neg NegInf = PosInf"
| "js_neg NaN = NaN"

fun js_add :: "jsnum \<Rightarrow> jsnum \<Rightarrow> jsnum" where
  "js_add NaN b = NaN"
| "js_add a NaN = NaN"
| "js_add (Num a) (Num b) = overflow (a + b)"
| "js_add PosInf NegInf = NaN"
| "js_add NegInf PosInf = NaN"
| "js_add PosInf b = PosInf"
| "js_add a PosInf = PosInf"
| "js_add NegInf b = NegInf"
| "js_add a NegInf = NegInf"

definition js_sub :: "jsnum \<Rightarrow> jsnum \<Rightarrow> jsnum" where
  "js_sub a b = js_add a (js_neg b)"

text \<open>The infinity that carries the sign of a non-zero product or quotient.\<close>

definition signed_inf :: "bool \<Rightarrow> jsnum" where
  "signed_inf positive = (if positive then PosInf else NegInf)"

fun js_mul :: "jsnum \<Rightarrow> jsnum \<Rightarrow> jsnum" where
  "js_mul NaN b = NaN"
| "js_mul a NaN = NaN"
| "js_mul (Num a) (Num b) = overflow (a * b)"
| "js_mul (Num a) PosInf = (if a = 0 then NaN else signed_inf (a > 0))"
| "js_mul (Num a) NegInf = (if a = 0 then NaN else signed_inf (a < 0))"
| "js_mul PosInf (Num b) = (if b = 0 then NaN else signed_inf (b > 0))"
| "js_mul NegInf (Num b) = (if b = 0 then NaN else signed_inf (b < 0))"
| "js_mul PosInf PosInf = PosInf"
| "js_mul PosInf NegInf = NegInf"
| "js_mul NegInf PosInf = NegInf"
| "js_mul NegInf NegInf = PosInf"

fun js_div :: "jsnum \<Rightarrow> jsnum \<Rightarrow> jsnum" where
  "js_div NaN b = NaN"
| "js_div a NaN = NaN"
| "js_div (Num a) (Num b) =
     (if b = 0 then (if a = 0 then NaN else signed_inf (a > 0)) else overflow (a / b))"
| "js_div (Num a) PosInf = Num 0"
| "js_div (Num a) NegInf = Num 0"
| "js_div PosInf (Num b) = signed_inf (b \<ge> 0)"
| "js_div NegInf (Num b) = signed_inf (b < 0)"
| "js_div PosInf b = NaN"
| "js_div NegInf b = NaN"

text \<open>\<^verbatim>\<open>Math.abs\<close>, the comparison \<^verbatim>\<open>a >= b\<close> and the two-argument steps of
  \<^verbatim>\<open>Math.min\<close> and \<^verbatim>\<open>Math.max\<close>. A comparison with \<^verbatim>\<open>NaN\<close> is false.\<close>

fun js_abs :: "jsnum \<Rightarrow> jsnum" where
  "js_abs (Num a) = Num \<bar>a\<bar>"
| "js_abs PosInf = PosInf"
| "js_abs NegInf = PosInf"
| "js_abs NaN = NaN"

fun js_ge :: "jsnum \<Rightarrow> jsnum \<Rightarrow> bool" where
  "js_ge NaN b = False"
| "js_ge a NaN = False"
| "js_ge PosInf b = True"
| "js_ge a NegInf = True"
| "js_ge (Num a) (Num b) = (a \<ge> b)"
| "js_ge (Num a) PosInf = False"
| "js_ge NegInf b = False"

definition js_min2 :: "jsnum \<Rightarrow> jsnum \<Rightarrow> jsnum" where
  "js_min2 a b = (if a = NaN \<or> b = NaN then NaN else if js_ge b a then a else b)"

definition js_max2 :: "jsnum \<Rightarrow> jsnum \<Rightarrow> jsnum" where
  "js_max2 a b = (if a = NaN \<or> b = NaN then NaN else if js_ge a b then a else b)"

text \<open>\<^verbatim>\<open>Math.min(...xs)\<close> and \<^verbatim>\<open>Math.max(...xs)\<close>; with no argument they are
  \<^verbatim>\<open>Infinity\<close> and \<^verbatim>\<open>-Infinity\<close>.\<close>

definition Math_min :: "jsnum list \<Rightarrow> jsnum" where
  "Math_min xs = foldl js_min2 PosInf xs"

definition Math_max :: "jsnum list \<Rightarrow> jsnum" where
  "Math_max xs = foldl js_max2 NegInf xs"

text \<open>\<^verbatim>\<open>a || b\<close> on numbers: \<open>0\<close> and \<^verbatim>\<open>NaN\<close> are falsy.\<close>

definition js_or :: "jsnum \<Rightarrow> jsnum \<Rightarrow> jsnum" where
  "js_or a b = (if a = Num 0 \<or> a = NaN then b else a)"

section \<open>The data the components receive\<close>

text \<open>
  Modelled from the spec: \<^verbatim>\<open>ChartSpec\<close> is declared in \<^verbatim>\<open>@/lib/api\<close>, and
  \<^verbatim>\<open>AgentInsight\<close> and \<^verbatim>\<open>AgentState\<close> in \<^verbatim>\<open>@/lib/useExperiment\<close>; neither file is
  part of the sources. The records hold the fields the two components read, with the
  types of the data model of the specification (section 3), and \<open>runId\<close> and \<open>seq\<close> of
  the insight event. A field the code guards against being absent
  (\<^verbatim>\<open>chart.series?.[0]\<close>, \<^verbatim>\<open>Array.isArray(series.values)\<close>, \<^verbatim>\<open>Array.isArray(chart.labels)\<close>,
  \<^verbatim>\<open>agent.insights || []\<close>) is an option.
\<close>

datatype chart_kind = Line | Bar

record Series =
  series_name :: "string option"
  series_values :: "jsnum list option"

record ChartSpec =
  title :: "string option"
  chart_type :: chart_kind
  labels :: "string list option"
  series :: "Series list option"

record AgentInsight =
  insight_id :: string
  runId :: string
  seq :: nat
  summary :: string
  timestamp :: int
  insight_chart :: "ChartSpec option"

record AgentState =
  agent_id :: string
  gpu :: "string option"
  insights :: "AgentInsight list option"

section \<open>FindingsRail: the insight rail\<close>

text \<open>
  \<^verbatim>\<open>src/frontend/src/components/FindingsRail.tsx\<close>, lines 154--158. The prop \<^verbatim>\<open>agents\<close>
  is a \<^verbatim>\<open>Record<string, AgentState>\<close>; it is given here as the list of its entries in the
  order in which \<^verbatim>\<open>Object.values\<close> enumerates them. A timestamp is a number of
  milliseconds, an integer.
\<close>

type_synonym agents = "(string \<times> AgentState) list"

definition Object_values :: "agents \<Rightarrow> AgentState list" where
  "Object_values ags = map snd ags"

text \<open>\<^verbatim>\<open>type InsightWithAgent = AgentInsight & { agentId: string; gpu?: string }\<close>.\<close>

record InsightWithAgent =
  insight :: AgentInsight
  agentId :: string
  agent_gpu :: "string option"

text \<open>
  \<^verbatim>\<open>Array.prototype.sort\<close> with a comparator: the sort is stable, and an element \<open>a\<close>
  comes before \<open>b\<close> when \<open>cmp a b\<close> is negative. For a consistent comparator the result
  does not depend on the algorithm; the model inserts from the right.
\<close>

fun insert_by :: "('a \<Rightarrow> 'a \<Rightarrow> int) \<Rightarrow> 'a \<Rightarrow> 'a list \<Rightarrow> 'a list" where
  "insert_by cmp x [] = [x]"
| "insert_by cmp x (y # ys) = (if cmp x y \<le> 0 then x # y # ys else y # insert_by cmp x ys)"

fun array_sort :: "('a \<Rightarrow> 'a \<Rightarrow> int) \<Rightarrow> 'a list \<Rightarrow> 'a list" where
  "array_sort cmp [] = []"
| "array_sort cmp (x # xs) = insert_by cmp x (array_sort cmp xs)"

text \<open>The callback of \<^verbatim>\<open>flatMap\<close> and the comparator of \<^verbatim>\<open>sort\<close>.\<close>

definition with_agent :: "AgentState \<Rightarrow> InsightWithAgent list" where
  "with_agent agent =
     map (\<lambda>i. \<lparr>insight = i, agentId = agent_id agent, agent_gpu = gpu agent\<rparr>)
       (case insights agent of Some is \<Rightarrow> is | None \<Rightarrow> [])"

definition by_timestamp_desc :: "InsightWithAgent \<Rightarrow> InsightWithAgent \<Rightarrow> int" where
  "by_timestamp_desc a b = timestamp (insight b) - timestamp (insight a)"

text \<open>The constant \<^verbatim>\<open>insights\<close> of \<^verbatim>\<open>FindingsRail\<close>.\<close>

definition all_insights :: "agents \<Rightarrow> InsightWithAgent list" where
  "all_insights ags = concat (map with_agent (Object_values ags))"

definition rail_insights :: "agents \<Rightarrow> InsightWithAgent list" where
  "rail_insights ags = take 24 (array_sort by_timestamp_desc (all_insights ags))"

text \<open>
  The order the specification states, for comparison with the code: by timestamp
  descending, ties broken by \<open>(runId, seq)\<close> descending. \<open>spec_before a b\<close> says that
  \<open>a\<close> has to come strictly before \<open>b\<close>.
\<close>

definition spec_before :: "InsightWithAgent \<Rightarrow> InsightWithAgent \<Rightarrow> bool" where
  "spec_before a b =
     (timestamp (insight a) > timestamp (insight b) \<or>
      timestamp (insight a) = timestamp (insight b) \<and>
        (runId (insight a) > runId (insight b) \<or>
         runId (insight a) = runId (insight b) \<and> seq (insight a) > seq (insight b)))"

definition rail_order_spec :: "InsightWithAgent list \<Rightarrow> bool" where
  "rail_order_spec es = sorted_wrt spec_before es"

text \<open>
  Two inputs used below: one agent with two insights of the same timestamp, and four
  agents with one insight each, of the timestamps 100, 50, 300 and 200.
\<close>

definition tie_insight :: "nat \<Rightarrow> AgentInsight" where
  "tie_insight n =
     \<lparr>insight_id = ''i'', runId = ''r1'', seq = n, summary = ''s'', timestamp = 100, insight_chart = None\<rparr>"

definition tie_agents :: agents where
  "tie_agents =
     [(''r1'', \<lparr>agent_id = ''r1'', gpu = None, insights = Some [tie_insight 0, tie_insight 1]\<rparr>)]"

definition one_insight_agent :: "string \<Rightarrow> int \<Rightarrow> string \<times> AgentState" where
  "one_insight_agent a t =
     (a, \<lparr>agent_id = a, gpu = None,
          insights = Some [\<lparr>insight_id = a, runId = a, seq = 0, summary = ''s'', timestamp = t,
                            insight_chart = None\<rparr>]\<rparr>)"

definition four_agents :: agents where
  "four_agents =
     [one_insight_agent ''a1'' 100, one_insight_agent ''a2'' 50,
      one_insight_agent ''a3'' 300, one_insight_agent ''a4'' 200]"

section \<open>MiniChart: the chart projector\<close>

text \<open>
  \<^verbatim>\<open>src/frontend/src/components/FindingsRail.tsx\<close>, lines 15--152. The layout constants,
  array lengths and indices are small integers (an array is shorter than \<open>2^32\<close>), so the
  expressions over them cannot overflow and are computed in exact arithmetic; every
  expression over the values of the series goes through the operations on \<open>jsnum\<close>.
\<close>

definition width :: real where "width = 260"
definition height :: real where "height = 140"
definition padding_top :: real where "padding_top = 14"
definition padding_right :: real where "padding_right = 10"
definition padding_bottom :: real where "padding_bottom = 28"
definition padding_left :: real where "padding_left = 46"

definition innerWidth :: real where
  "innerWidth = width - padding_left - padding_right"

definition innerHeight :: real where
  "innerHeight = height - padding_top - padding_bottom"

text \<open>\<^verbatim>\<open>chart.series?.[0]\<close>: absent when there is no series array or it is empty.\<close>

definition first_series :: "ChartSpec \<Rightarrow> Series option" where
  "first_series chart =
     (case series chart of None \<Rightarrow> None | Some [] \<Rightarrow> None | Some (s # rest) \<Rightarrow> Some s)"

text \<open>Line 23: \<^verbatim>\<open>series.values.map((v) => Number(v)).filter((v) => Number.isFinite(v))\<close>.\<close>

definition finite_values :: "jsnum list \<Rightarrow> jsnum list" where
  "finite_values raw = filter isFinite (map Number raw)"

text \<open>Lines 26--28: \<^verbatim>\<open>min\<close>, \<^verbatim>\<open>max\<close> and \<^verbatim>\<open>span = max - min || 1\<close>.\<close>

definition span_of :: "jsnum list \<Rightarrow> jsnum" where
  "span_of vs = js_or (js_sub (Math_max vs) (Math_min vs)) (Num 1)"

text \<open>
  A natural number in decimal: the template string \<^verbatim>\<open>`${idx + 1}`\<close> of line 53, and the
  digits that \<^verbatim>\<open>toFixed\<close> and \<^verbatim>\<open>toPrecision\<close> print.
\<close>

fun string_of_nat :: "nat \<Rightarrow> string" where
  "string_of_nat n =
     (if n < 10 then [''0123456789'' ! n]
      else string_of_nat (n div 10) @ [''0123456789'' ! (n mod 10)])"

declare string_of_nat.simps [simp del]

text \<open>
  \<^verbatim>\<open>Number.prototype.toFixed\<close> and \<^verbatim>\<open>Number.prototype.toPrecision\<close> of the JavaScript
  library, after their definition in the ECMAScript standard. The result is the text
  printed. For a finite number of magnitude \<open>10^21\<close> or more \<^verbatim>\<open>toFixed\<close> returns
  \<^verbatim>\<open>Number::toString\<close>, a text in exponent notation whose digits are the shortest that
  identify the double; that text is not modelled and is written \<open>ToStringOf r\<close>.
\<close>

datatype number_text = Text string | ToStringOf real

definition sign_text :: "real \<Rightarrow> string" where
  "sign_text r = (if r < 0 then ''-'' else '''')"

text \<open>
  \<^verbatim>\<open>toFixed\<close> on \<open>0 \<le> x < 10^21\<close>: \<open>n\<close> is the integer for which \<open>n / 10^f\<close> is nearest to
  \<open>x\<close>, the larger one of two; its digits are padded with zeros to more than \<open>f\<close> digits
  and the point is put before the last \<open>f\<close> of them.
\<close>

definition fixed_digits :: "real \<Rightarrow> nat \<Rightarrow> string" where
  "fixed_digits x f =
     (let n = nat \<lfloor>x * 10 ^ f + 1 / 2\<rfloor>;
          m = string_of_nat n;
          padded = (if length m \<le> f then replicate (f + 1 - length m) (CHR ''0'') @ m else m);
          k = length padded
      in if f \<noteq> 0 then take (k - f) padded @ ''.'' @ drop (k - f) padded else m)"

fun toFixed :: "jsnum \<Rightarrow> nat \<Rightarrow> number_text" where
  "toFixed NaN f = Text ''NaN''"
| "toFixed PosInf f = Text ''Infinity''"
| "toFixed NegInf f = Text ''-Infinity''"
| "toFixed (Num r) f =
     (if \<bar>r\<bar> \<ge> 10 ^ 21 then ToStringOf r else Text (sign_text r @ fixed_digits \<bar>r\<bar> f))"

text \<open>
  \<^verbatim>\<open>toPrecision\<close> on \<open>x > 0\<close> with \<open>p \<ge> 1\<close> digits: \<open>e\<close> and \<open>n\<close> are the integers with
  \<open>10^(p-1) \<le> n < 10^p\<close> for which \<open>n * 10^(e-p+1)\<close> is nearest to \<open>x\<close>, the larger one
  of two. \<open>scale_down x 1\<close> is the least \<open>k \<ge> 1\<close> with \<open>x * 10^k \<ge> 1\<close>, for \<open>0 < x < 1\<close>;
  \<open>exponent10 x\<close> is the integer \<open>e\<close> with \<open>10^e \<le> x < 10^(e+1)\<close>.
\<close>

function scale_down :: "real \<Rightarrow> nat \<Rightarrow> nat" where
  "scale_down x k = (if 0 < x \<and> x * 10 ^ k < 1 then scale_down x (Suc k) else k)"
  by pat_completeness auto
termination
proof (relation "measure (\<lambda>(x, k). nat \<lceil>1 / x\<rceil> - k)")
  show "wf (measure (\<lambda>(x, k). nat \<lceil>1 / x\<rceil> - k))" by simp
next
  fix x :: real and k :: nat
  assume "0 < x \<and> x * 10 ^ k < 1"
  then have x: "0 < x" and "x * 10 ^ k < 1" by simp_all
  then have "(10::real) ^ k < 1 / x" by (simp add: pos_less_divide_eq mult.commute)
  moreover have "real k < 2 ^ k" by (rule of_nat_less_two_power)
  moreover have "(2::real) ^ k \<le> 10 ^ k" by (rule power_mono) simp_all
  ultimately have "real k < 1 / x" by linarith
  then have "k < nat \<lceil>1 / x\<rceil>" by linarith
  then show "((x, Suc k), (x, k)) \<in> measure (\<lambda>(x, k). nat \<lceil>1 / x\<rceil> - k)" by simp
qed

declare scale_down.simps [simp del]

definition exponent10 :: "real \<Rightarrow> int" where
  "exponent10 x =
     (if x < 1 then - int (scale_down x 1) else int (length (string_of_nat (nat \<lfloor>x\<rfloor>))) - 1)"

definition scaled :: "real \<Rightarrow> int \<Rightarrow> real" where
  "scaled x e = (if e < 0 then x * 10 ^ nat (- e) else x / 10 ^ nat e)"

definition significant :: "real \<Rightarrow> nat \<Rightarrow> int \<times> nat" where
  "significant x p =
     (let e = exponent10 x;
          n = nat \<lfloor>scaled x (e - int p + 1) + 1 / 2\<rfloor>
      in if n = 10 ^ p then (e + 1, 10 ^ (p - 1)) else (e, n))"

definition precision_digits :: "real \<Rightarrow> nat \<Rightarrow> string" where
  "precision_digits x p =
     (let (e, m) = (if x = 0 then (0, replicate p (CHR ''0''))
                    else (fst (significant x p), string_of_nat (snd (significant x p))))
      in if e < - 6 \<or> e \<ge> int p
         then (if p \<noteq> 1 then hd m # ''.'' @ tl m else m) @ ''e'' @
              (if e \<ge> 0 then ''+'' else ''-'') @ string_of_nat (nat \<bar>e\<bar>)
         else if e = int p - 1 then m
         else if e \<ge> 0 then take (nat e + 1) m @ ''.'' @ drop (nat e + 1) m
         else ''0.'' @ replicate (nat (- (e + 1))) (CHR ''0'') @ m)"

fun toPrecision :: "jsnum \<Rightarrow> nat \<Rightarrow> number_text" where
  "toPrecision NaN p = Text ''NaN''"
| "toPrecision PosInf p = Text ''Infinity''"
| "toPrecision NegInf p = Text ''-Infinity''"
| "toPrecision (Num r) p = Text (sign_text r @ precision_digits \<bar>r\<bar> p)"

text \<open>
  Lines 33--41, \<^verbatim>\<open>formatNumber\<close>: the text of the number and the suffix that the template
  string appends to it.
\<close>

definition formatNumber :: "jsnum \<Rightarrow> number_text \<times> string" where
  "formatNumber val =
     (let abs = js_abs val in
      if js_ge abs (Num 1000000000) then (toFixed (js_div val (Num 1000000000)) 1, ''b'')
      else if js_ge abs (Num 1000000) then (toFixed (js_div val (Num 1000000)) 1, ''m'')
      else if js_ge abs (Num 1000) then (toFixed (js_div val (Num 1000)) 1, ''k'')
      else if js_ge abs (Num 100) then (toFixed val 0, '''')
      else if js_ge abs (Num 1) then (toFixed val 2, '''')
      else (toPrecision val 2, ''''))"

text \<open>\<^verbatim>\<open>Math.max(values.length - 1, 1)\<close>, the divisor of every x coordinate.\<close>

definition x_divisor :: "nat \<Rightarrow> real" where
  "x_divisor n = max (real n - 1) 1"

text \<open>Lines 43--47: the coordinates of the point of the value \<open>v\<close> at index \<open>idx\<close>,
  for \<open>n\<close> values.\<close>

definition point_x :: "nat \<Rightarrow> nat \<Rightarrow> jsnum" where
  "point_x n idx = Num (padding_left + (real idx / x_divisor n) * innerWidth)"

definition point_y :: "jsnum \<Rightarrow> jsnum \<Rightarrow> jsnum \<Rightarrow> jsnum" where
  "point_y mn sp v =
     js_add (Num padding_top)
       (js_mul (js_sub (Num 1) (js_div (js_sub v mn) sp)) (Num innerHeight))"

definition pts :: "jsnum list \<Rightarrow> (jsnum \<times> jsnum) list" where
  "pts vs =
     map (\<lambda>(v, idx). (point_x (length vs) idx, point_y (Math_min vs) (span_of vs) v))
       (zip vs [0..<length vs])"

text \<open>Lines 49--53: the category labels; \<open>vs\<close> are the finite values.\<close>

definition xLabels :: "ChartSpec \<Rightarrow> jsnum list \<Rightarrow> string list" where
  "xLabels chart vs =
     (case labels chart of
        Some ls \<Rightarrow>
          if length ls = length vs then ls
          else map (\<lambda>idx. string_of_nat (idx + 1)) [0..<length vs]
      | None \<Rightarrow> map (\<lambda>idx. string_of_nat (idx + 1)) [0..<length vs])"

text \<open>
  Lines 55--70: the ticks of the x axis. A tick is \<^verbatim>\<open>{ idx, label, x }\<close>; a label read
  out of range is \<^verbatim>\<open>undefined\<close>, here \<open>None\<close>.
\<close>

record tick =
  tick_idx :: int
  tick_label :: "string option"
  tick_x :: jsnum

definition maxTicks :: nat where "maxTicks = 4"

definition tick_step :: "string list \<Rightarrow> nat" where
  "tick_step ls = max 1 (nat \<lceil>real (length ls) / real maxTicks\<rceil>)"

definition tick_at :: "string list \<Rightarrow> int \<Rightarrow> tick" where
  "tick_at ls i =
     \<lparr>tick_idx = i,
      tick_label = (if 0 \<le> i \<and> i < int (length ls) then Some (ls ! nat i) else None),
      tick_x = Num (padding_left + (real_of_int i / x_divisor (length ls)) * innerWidth)\<rparr>"

function tick_loop :: "string list \<Rightarrow> nat \<Rightarrow> tick list \<Rightarrow> tick list" where
  "tick_loop ls i ticks =
     (if i < length ls then tick_loop ls (i + tick_step ls) (ticks @ [tick_at ls (int i)])
      else ticks)"
  by pat_completeness auto
termination
  by (relation "measure (\<lambda>(ls, i, ticks). length ls - i)") (auto simp add: tick_step_def)

declare tick_loop.simps [simp del]

definition xTicks :: "string list \<Rightarrow> tick list" where
  "xTicks ls =
     (let ticks = tick_loop ls 0 [];
          lastIdx = (if ticks = [] then None else Some (tick_idx (last ticks)))
      in if lastIdx \<noteq> Some (int (length ls) - 1)
         then ticks @ [tick_at ls (int (length ls) - 1)]
         else ticks)"

text \<open>Lines 72--75: the ticks of the y axis, at the fractions 0, 0.5 and 1 of the span.\<close>

record ytick =
  ytick_value :: jsnum
  ytick_y :: real

definition yTicks :: "jsnum \<Rightarrow> jsnum \<Rightarrow> ytick list" where
  "yTicks mn sp =
     map (\<lambda>t. \<lparr>ytick_value = js_add mn (js_mul sp (Num t)),
               ytick_y = padding_top + (1 - t) * innerHeight\<rparr>)
       [0, 1 / 2, 1]"

text \<open>Lines 121--138: the rectangle of a bar; \<open>bar_x\<close> is the constant \<^verbatim>\<open>x\<close> of
  line 124.\<close>

record bar_rect =
  rect_x :: jsnum
  rect_y :: jsnum
  rect_width :: jsnum
  rect_height :: jsnum

definition barWidth :: "nat \<Rightarrow> real" where
  "barWidth n = innerWidth / max (real n * (14 / 10)) 1"

definition bar_x :: "nat \<Rightarrow> nat \<Rightarrow> jsnum" where
  "bar_x n idx = Num (padding_left + real idx * (innerWidth / x_divisor n))"

definition bar :: "jsnum list \<Rightarrow> jsnum \<times> nat \<Rightarrow> bar_rect" where
  "bar vs = (\<lambda>(v, idx).
     let y = point_y (Math_min vs) (span_of vs) v;
         h = js_sub (Num (height - padding_bottom)) y
     in \<lparr>rect_x = js_sub (bar_x (length vs) idx) (Num (barWidth (length vs) / 2)),
         rect_y = y,
         rect_width = Num (barWidth (length vs)),
         rect_height = h\<rparr>)"

text \<open>
  What the component draws: the two captions, the grid lines and the labels of the y
  axis, the labels of the x axis, and either the bars or the polyline.
\<close>

datatype chart_body = Polyline "(jsnum \<times> jsnum) list" | Bars "bar_rect list"

record chart_view =
  caption :: string
  series_caption :: string
  grid_lines :: "real list"
  y_axis_labels :: "(real \<times> number_text \<times> string) list"
  x_axis_labels :: "tick list"
  body :: chart_body

text \<open>\<^verbatim>\<open>s || fallback\<close> on an optional string: absent and empty strings are falsy.\<close>

definition or_default :: "string option \<Rightarrow> string \<Rightarrow> string" where
  "or_default s fallback = (case s of None \<Rightarrow> fallback | Some t \<Rightarrow> if t = [] then fallback else t)"

definition draw :: "ChartSpec \<Rightarrow> Series \<Rightarrow> jsnum list \<Rightarrow> chart_view" where
  "draw chart s vs =
     (let mn = Math_min vs;
          sp = span_of vs;
          bars = (chart_type chart = Bar)
      in \<lparr>caption = or_default (title chart) ''Signal'',
          series_caption = or_default (series_name s) ''metric'',
          grid_lines = map ytick_y (yTicks mn sp),
          y_axis_labels = map (\<lambda>t. (ytick_y t + 3, formatNumber (ytick_value t))) (yTicks mn sp),
          x_axis_labels = xTicks (xLabels chart vs),
          body = (if bars then Bars (map (bar vs) (zip vs [0..<length vs])) else Polyline (pts vs))\<rparr>)"

text \<open>The component: \<open>None\<close> is the \<^verbatim>\<open>null\<close> of the two early returns (lines 21 and 24).\<close>

definition MiniChart :: "ChartSpec \<Rightarrow> chart_view option" where
  "MiniChart chart =
     (case first_series chart of
        None \<Rightarrow> None
      | Some s \<Rightarrow>
          (case series_values s of
             None \<Rightarrow> None
           | Some raw \<Rightarrow>
               if length raw = 0 then None
               else let vs = finite_values raw
                    in if length vs = 0 then None else Some (draw chart s vs)))"

text \<open>
  For the statements below: the real numbers that the finite entries of a list denote,
  and \<open>finite_between v lo hi\<close>, which says that \<open>v\<close> is a finite number between \<open>lo\<close> and \<open>hi\<close>.
\<close>

fun reals :: "jsnum list \<Rightarrow> real list" where
  "reals [] = []"
| "reals (Num r # vs) = r # reals vs"
| "reals (v # vs) = reals vs"

fun finite_between :: "jsnum \<Rightarrow> real \<Rightarrow> real \<Rightarrow> bool" where
  "finite_between (Num r) lo hi = (lo \<le> r \<and> r \<le> hi)"
| "finite_between v lo hi = False"


text \<open>
  A chart whose second value is not finite and whose two labels are fewer than its three
  values; and the reading of a decimal numeral, the inverse of \<open>string_of_nat\<close>.
\<close>

definition short_labels_chart :: ChartSpec where
  "short_labels_chart =
     \<lparr>title = None, chart_type = Line, labels = Some [''a'', ''b''],
      series = Some [\<lparr>series_name = None, series_values = Some [Num 1, NaN, Num 3]\<rparr>]\<rparr>"






text \<open>A line chart of the two values \<open>2^1023\<close> and \<open>-2^1023\<close>, both finite doubles.\<close>

definition huge_range_chart :: ChartSpec where
  "huge_range_chart =
     \<lparr>title = None, chart_type = Line, labels = None,
      series = Some [\<lparr>series_name = None,
                      series_values = Some [Num (2 ^ 1023), Num (- (2 ^ 1023))]\<rparr>]\<rparr>"

text \<open>A line chart of the series \<open>[5, 5, 5]\<close>.\<close>

definition flat_chart :: ChartSpec where
  "flat_chart =
     \<lparr>title = None, chart_type = Line, labels = None,
      series = Some [\<lparr>series_name = None, series_values = Some [Num 5, Num 5, Num 5]\<rparr>]\<rparr>"

section \<open>FindingsRail: what is rendered\<close>

text \<open>
  Lines 160--209. The rail is rendered only when there is an insight
  (\<^verbatim>\<open>insights.length > 0 && ...\<close>); \<open>None\<close> is the empty \<^verbatim>\<open>AnimatePresence\<close>. A card
  shows the agent, the time, the summary and, when the insight has a chart with a
  non-empty \<^verbatim>\<open>series\<close>, what \<^verbatim>\<open>MiniChart\<close> draws.
\<close>

record insight_card =
  card_key :: string
  card_agent :: string
  card_time :: int
  card_summary :: string
  card_chart :: "chart_view option"

definition card :: "InsightWithAgent \<Rightarrow> insight_card" where
  "card e =
     \<lparr>card_key = insight_id (insight e),
      card_agent = agentId e,
      card_time = timestamp (insight e),
      card_summary = summary (insight e),
      card_chart =
        (case insight_chart (insight e) of
           None \<Rightarrow> None
         | Some c \<Rightarrow>
             (case series c of
                None \<Rightarrow> None
              | Some ss \<Rightarrow> if length ss \<noteq> 0 then MiniChart c else None))\<rparr>"

definition FindingsRail :: "agents \<Rightarrow> insight_card list option" where
  "FindingsRail ags =
     (let shown = rail_insights ags
      in if length shown > 0 then Some (map card shown) else None)"

section \<open>StreamingMarkdown: proofs\<close>

subsection \<open>Facts about the effect\<close>

lemma effect_prevContent: "prevContentRef (snd (effect p r)) = content p"
  by (simp add: effect_def Let_def)

lemma effect_prevKey: "prevKeyRef (snd (effect p r)) = Some (key_of p)"
  by (simp add: effect_def Let_def)

lemma effect_fires_iff:
  "fst (effect p r) \<longleftrightarrow>
     (prevKeyRef r \<noteq> Some (key_of p) \<or> \<not> animatedRef r) \<and> content p \<noteq> [] \<and> prevContentRef r = []"
  by (auto simp add: effect_def Let_def)

lemma effect_animated:
  "animatedRef (snd (effect p r)) \<longleftrightarrow>
     fst (effect p r) \<or> (prevKeyRef r = Some (key_of p) \<and> animatedRef r)"
  by (auto simp add: effect_def Let_def)

text \<open>
  React runs the effect only when \<^verbatim>\<open>[key, content]\<close> changed. Running it once more on
  unchanged props would neither fire nor change the refs, so a sequence of updates may
  repeat an element without changing what is observed.
\<close>

lemma effect_repeat: "effect p (snd (effect p r)) = (False, snd (effect p r))"
  by (simp add: effect_def Let_def)

lemma length_signals: "length (signals r ps) = length ps"
  by (induction ps arbitrary: r) simp_all

lemma signals_append:
  "signals r (ps @ qs) = signals r ps @ signals (refs_after r ps) qs"
  by (induction ps arbitrary: r) simp_all

lemma refs_after_append: "refs_after r (ps @ qs) = refs_after (refs_after r ps) qs"
  by (induction ps arbitrary: r) simp_all

lemma prevContent_refs_after:
  "prevContentRef (refs_after r ps) = (if ps = [] then prevContentRef r else content (last ps))"
  by (induction ps arbitrary: r) (simp_all add: effect_prevContent)

lemma prevKey_refs_after:
  "prevKeyRef (refs_after r ps) = (if ps = [] then prevKeyRef r else Some (key_of (last ps)))"
  by (induction ps arbitrary: r) (simp_all add: effect_prevKey)



lemma signals_fire_only_from_empty:
  "i < length ps \<Longrightarrow> signals r ps ! i \<Longrightarrow>
     content (ps ! i) \<noteq> [] \<and> (if i = 0 then prevContentRef r else content (ps ! (i - 1))) = []"
proof (induction ps arbitrary: r i)
  case Nil
  then show ?case by simp
next
  case (Cons p ps)
  show ?case
  proof (cases i)
    case 0
    with Cons.prems show ?thesis by (simp add: effect_fires_iff)
  next
    case (Suc j)
    with Cons.prems have j: "j < length ps" "signals (snd (effect p r)) ps ! j" by simp_all
    from Cons.IH[OF j] show ?thesis
      using Suc by (cases j) (simp_all add: effect_prevContent)
  qed
qed

text \<open>
  Claim C10. For every sequence of updates, the appearance signal fires at an update only
  if the new content is non-empty and the content rendered just before it (that of the
  previous update whatever its key, or the initial empty string) was empty.
\<close>

theorem signal_only_after_empty_content:
  "i < length ps \<Longrightarrow> StreamingMarkdown ps ! i \<Longrightarrow>
     content (ps ! i) \<noteq> [] \<and> (if i = 0 then [] else content (ps ! (i - 1))) = []"
proof -
  have "prevContentRef initial_refs = []" by (simp add: initial_refs_def)
  with signals_fire_only_from_empty[of i ps initial_refs]
  show "i < length ps \<Longrightarrow> StreamingMarkdown ps ! i \<Longrightarrow>
     content (ps ! i) \<noteq> [] \<and> (if i = 0 then [] else content (ps ! (i - 1))) = []"
    by (auto simp add: StreamingMarkdown_def split: if_splits)
qed

theorem signal_only_after_empty_content_witness:
  "(0::nat) < length [upd (KeyNum 7) ''a''] \<and> StreamingMarkdown [upd (KeyNum 7) ''a''] ! 0 \<and>
   content ([upd (KeyNum 7) ''a''] ! 0) \<noteq> [] \<and>
   (if (0::nat) = 0 then [] else content ([upd (KeyNum 7) ''a''] ! (0 - 1))) = []"
  using signal_only_after_empty_content[of 0 "[upd (KeyNum 7) ''a'']"]
  by (simp add: StreamingMarkdown_def initial_refs_def effect_def Let_def key_of_def upd_def)

subsection \<open>One signal per run of an identity\<close>

lemma signals_empty_contents:
  "\<forall>e\<in>set es. content e = [] \<Longrightarrow> signals r es = replicate (length es) False"
  by (induction es arbitrary: r) (simp_all add: effect_fires_iff)

lemma signals_animated_same_key:
  "animatedRef r \<Longrightarrow> prevKeyRef r = Some k \<Longrightarrow> \<forall>p\<in>set seg. key_of p = k \<Longrightarrow>
     signals r seg = replicate (length seg) False"
proof (induction seg arbitrary: r)
  case Nil
  then show ?case by simp
next
  case (Cons p seg)
  have nf: "\<not> fst (effect p r)" using Cons.prems by (simp add: effect_fires_iff)
  have "animatedRef (snd (effect p r))" "prevKeyRef (snd (effect p r)) = Some k"
    using Cons.prems by (simp_all add: effect_animated effect_prevKey)
  from Cons.IH[OF this] Cons.prems(3) nf show ?case by simp
qed

lemma count_list_replicate_False: "count_list (replicate n False) True = 0"
  by (induction n) simp_all

lemma signals_at_most_once:
  "\<forall>p\<in>set seg. key_of p = k \<Longrightarrow> count_list (signals r seg) True \<le> 1"
proof (induction seg arbitrary: r)
  case Nil
  then show ?case by simp
next
  case (Cons p seg)
  show ?case
  proof (cases "fst (effect p r)")
    case True
    have "animatedRef (snd (effect p r))" "prevKeyRef (snd (effect p r)) = Some k"
      using Cons.prems True by (simp_all add: effect_animated effect_prevKey)
    from signals_animated_same_key[OF this] Cons.prems
    have "signals (snd (effect p r)) seg = replicate (length seg) False" by simp
    with True show ?thesis by (simp add: count_list_replicate_False)
  next
    case False
    with Cons.IH[of "snd (effect p r)"] Cons.prems show ?thesis by simp
  qed
qed

lemma not_animated_after_empty:
  "\<forall>e\<in>set es. content e = [] \<and> key_of e = k \<Longrightarrow> animatedRef (refs_after r es) \<Longrightarrow>
     animatedRef r \<and> prevKeyRef r = Some k \<or> es = [] \<and> animatedRef r"
proof (induction es arbitrary: r)
  case Nil
  then show ?case by simp
next
  case (Cons e es)
  have nf: "\<not> fst (effect e r)" using Cons.prems by (simp add: effect_fires_iff)
  from Cons.IH[of "snd (effect e r)"] Cons.prems
  have "animatedRef (snd (effect e r))" by auto
  with nf Cons.prems show ?case by (simp add: effect_animated)
qed

lemma signals_first_text:
  assumes keys: "\<forall>q\<in>set (es @ p # rest). key_of q = k"
    and empties: "\<forall>e\<in>set es. content e = []"
    and nonblank: "content p \<noteq> []"
    and fresh: "prevKeyRef r \<noteq> Some k"
    and blank: "es \<noteq> [] \<or> prevContentRef r = []"
  shows "signals r (es @ p # rest) =
           replicate (length es) False @ True # replicate (length rest) False"
proof -
  let ?r1 = "refs_after r es"
  have a: "signals r es = replicate (length es) False"
    using empties by (rule signals_empty_contents)
  have pc: "prevContentRef ?r1 = []"
    using blank empties by (auto simp add: prevContent_refs_after)
  have "\<not> animatedRef ?r1 \<or> prevKeyRef ?r1 \<noteq> Some (key_of p)"
  proof (cases "es = []")
    case True
    with fresh keys show ?thesis by simp
  next
    case False
    have "\<forall>e\<in>set es. content e = [] \<and> key_of e = k" using keys empties by simp
    from not_animated_after_empty[OF this, of r] fresh False show ?thesis by auto
  qed
  with pc nonblank have f: "fst (effect p ?r1)" by (auto simp add: effect_fires_iff)
  then have "animatedRef (snd (effect p ?r1))" "prevKeyRef (snd (effect p ?r1)) = Some k"
    using keys by (simp_all add: effect_animated effect_prevKey)
  from signals_animated_same_key[OF this, of rest] keys
  have c: "signals (snd (effect p ?r1)) rest = replicate (length rest) False" by simp
  show ?thesis by (simp add: signals_append a f c)
qed

lemma drop_signals:
  "drop (length pre) (StreamingMarkdown (pre @ seg)) = signals (refs_after initial_refs pre) seg"
  by (simp add: StreamingMarkdown_def signals_append length_signals)

text \<open>
  Claim C2, as stated, fails on the code. After identity \<open>t1\<close> has shown the text
  \<open>a\<close>, a new identity \<open>t2\<close> whose first text \<open>b\<close> is already non-empty never gets
  the signal, because \<^verbatim>\<open>prevContentRef\<close> still holds the previous identity's text; and
  an identity that is shown again after another one gets the signal a second time.
\<close>

theorem appearance_once_per_identity_counterexample:
  "\<not> appearance_once_spec (KeyStr ''t2'') [upd (KeyStr ''t1'') ''a'', upd (KeyStr ''t2'') ''b''] \<and>
   StreamingMarkdown [upd (KeyStr ''t1'') ''a'', upd (KeyStr ''t2'') ''b''] = [True, False] \<and>
   StreamingMarkdown [upd (KeyStr ''t1'') ''a'', upd (KeyStr ''t2'') '''', upd (KeyStr ''t1'') ''b'']
     = [True, False, True]"
  by (simp add: appearance_once_spec_def signal_indices_def first_text_index_def
      StreamingMarkdown_def initial_refs_def effect_def Let_def key_of_def upd_def upt_rec)

text \<open>
  Claim C2, amended. Take any updates \<open>pre\<close> followed by a stretch \<open>seg\<close> of updates that
  all carry the identity \<open>k\<close>. Within \<open>seg\<close> the signal fires at most once, so growth and
  edits under the same identity never fire it again. If moreover \<open>seg\<close> starts a run of
  \<open>k\<close> (the update before it, if any, has another key), its first non-empty text \<open>p\<close>
  comes after the empty updates \<open>es\<close>, and the content rendered just before \<open>p\<close> was
  empty, then the signal fires exactly once in \<open>seg\<close>, at \<open>p\<close>. For the texts
  \<open>a\<close>, \<open>ab\<close>, \<open>abc\<close> under one identity it fires exactly once, on \<open>a\<close>.
\<close>

theorem appearance_signal_once_per_run:
  assumes "\<forall>q\<in>set seg. key_of q = k"
  shows "count_list (drop (length pre) (StreamingMarkdown (pre @ seg))) True \<le> 1 \<and>
         (seg = es @ p # rest \<and> (\<forall>e\<in>set es. content e = []) \<and> content p \<noteq> [] \<and>
          (pre = [] \<or> key_of (last pre) \<noteq> k) \<and>
          (es \<noteq> [] \<or> pre = [] \<or> content (last pre) = [])
          \<longrightarrow> drop (length pre) (StreamingMarkdown (pre @ seg)) =
                replicate (length es) False @ True # replicate (length rest) False) \<and>
         StreamingMarkdown [upd k ''a'', upd k ''ab'', upd k ''abc''] = [True, False, False]"
proof (intro conjI impI)
  show "count_list (drop (length pre) (StreamingMarkdown (pre @ seg))) True \<le> 1"
    unfolding drop_signals using assms by (rule signals_at_most_once)
next
  assume h: "seg = es @ p # rest \<and> (\<forall>e\<in>set es. content e = []) \<and> content p \<noteq> [] \<and>
          (pre = [] \<or> key_of (last pre) \<noteq> k) \<and>
          (es \<noteq> [] \<or> pre = [] \<or> content (last pre) = [])"
  let ?r = "refs_after initial_refs pre"
  have fresh: "prevKeyRef ?r \<noteq> Some k"
    using h by (auto simp add: prevKey_refs_after initial_refs_def)
  have blank: "es \<noteq> [] \<or> prevContentRef ?r = []"
    using h by (auto simp add: prevContent_refs_after initial_refs_def)
  have keys: "\<forall>q\<in>set (es @ p # rest). key_of q = k" using assms h by simp
  from signals_first_text[OF keys _ _ fresh blank] h
  show "drop (length pre) (StreamingMarkdown (pre @ seg)) =
          replicate (length es) False @ True # replicate (length rest) False"
    unfolding drop_signals by simp
next
  show "StreamingMarkdown [upd k ''a'', upd k ''ab'', upd k ''abc''] = [True, False, False]"
    by (simp add: StreamingMarkdown_def initial_refs_def effect_def Let_def key_of_def upd_def)
qed

theorem appearance_signal_once_per_run_witness:
  "list_all (\<lambda>q. key_of q = KeyStr ''t2'')
     [upd (KeyStr ''t2'') '''', upd (KeyStr ''t2'') ''b'', upd (KeyStr ''t2'') ''bc''] \<and>
   key_of (last [upd (KeyStr ''t1'') ''a'', upd (KeyStr ''t1'') '''']) \<noteq> KeyStr ''t2'' \<and>
   count_list (drop 2 (StreamingMarkdown
     ([upd (KeyStr ''t1'') ''a'', upd (KeyStr ''t1'') ''''] @
      [upd (KeyStr ''t2'') '''', upd (KeyStr ''t2'') ''b'', upd (KeyStr ''t2'') ''bc'']))) True \<le> 1 \<and>
   drop 2 (StreamingMarkdown
     ([upd (KeyStr ''t1'') ''a'', upd (KeyStr ''t1'') ''''] @
      [upd (KeyStr ''t2'') '''', upd (KeyStr ''t2'') ''b'', upd (KeyStr ''t2'') ''bc'']))
     = [False, True, False]"
  using appearance_signal_once_per_run[of
      "[upd (KeyStr ''t2'') '''', upd (KeyStr ''t2'') ''b'', upd (KeyStr ''t2'') ''bc'']"
      "KeyStr ''t2''"
      "[upd (KeyStr ''t1'') ''a'', upd (KeyStr ''t1'') '''']"
      "[upd (KeyStr ''t2'') '''']" "upd (KeyStr ''t2'') ''b''" "[upd (KeyStr ''t2'') ''bc'']"]
  by (simp add: key_of_def upd_def StreamingMarkdown_def initial_refs_def effect_def Let_def)

section \<open>FindingsRail: proofs\<close>

subsection \<open>The sort\<close>

lemma insert_by_insort:
  "insert_by by_timestamp_desc x ys = insort_key (\<lambda>e. - timestamp (insight e)) x ys"
  by (induction ys) (simp_all add: by_timestamp_desc_def)

lemma array_sort_sort_key:
  "array_sort by_timestamp_desc xs = sort_key (\<lambda>e. - timestamp (insight e)) xs"
  by (induction xs) (simp_all add: insert_by_insort)

lemma sorted_array_sort:
  "sorted_wrt (\<lambda>a b. timestamp (insight a) \<ge> timestamp (insight b))
     (array_sort by_timestamp_desc xs)"
proof -
  have "sorted (map (\<lambda>e. - timestamp (insight e)) (sort_key (\<lambda>e. - timestamp (insight e)) xs))"
    by (rule sorted_sort_key)
  then show ?thesis by (simp add: array_sort_sort_key sorted_map)
qed

lemma mset_array_sort: "mset (array_sort by_timestamp_desc xs) = mset xs"
  by (simp add: array_sort_sort_key)

lemma stable_array_sort:
  "filter (\<lambda>e. timestamp (insight e) = t) (array_sort by_timestamp_desc xs)
     = filter (\<lambda>e. timestamp (insight e) = t) xs"
  using sort_key_stable[of "\<lambda>e. - timestamp (insight e)" "- t" xs]
  by (simp add: array_sort_sort_key)

subsection \<open>Taking a prefix of a sorted list\<close>

lemma filter_take_prefix:
  "filter P (take n xs) = take (length (filter P (take n xs))) (filter P xs)"
proof -
  have "filter P xs = filter P (take n xs) @ filter P (drop n xs)"
    by (metis append_take_drop_id filter_append)
  then show ?thesis by simp
qed

lemma mset_take_drop: "mset xs - mset (take n xs) = mset (drop n xs)"
proof -
  have "mset xs = mset (take n xs) + mset (drop n xs)"
    by (metis append_take_drop_id mset_append)
  then show ?thesis by simp
qed

lemma mset_take_sub: "mset (take n xs) \<subseteq># mset xs"
proof -
  have "mset xs = mset (take n xs) + mset (drop n xs)"
    by (metis append_take_drop_id mset_append)
  then show ?thesis by (metis mset_subset_eq_add_left)
qed

lemma sorted_wrt_take_drop:
  assumes "sorted_wrt R xs" "x \<in> set (take n xs)" "y \<in> set (drop n xs)"
  shows "R x y"
proof -
  have "sorted_wrt R (take n xs @ drop n xs)" using assms(1) by simp
  then show ?thesis using assms(2,3) unfolding sorted_wrt_append by blast
qed

subsection \<open>The rail\<close>

text \<open>
  Claim C1, as stated, fails on the code: the comparator looks at the timestamp only and
  the sort is stable, so two insights of one agent with the same timestamp stay in the
  order of emission (\<open>seq\<close> 0 before \<open>seq\<close> 1), not in \<open>(runId, seq)\<close> descending order.
\<close>

theorem rail_tie_order_counterexample:
  "rail_insights tie_agents =
     [\<lparr>insight = tie_insight 0, agentId = ''r1'', agent_gpu = None\<rparr>,
      \<lparr>insight = tie_insight 1, agentId = ''r1'', agent_gpu = None\<rparr>] \<and>
   \<not> rail_order_spec (rail_insights tie_agents)"
  by (simp add: rail_insights_def all_insights_def Object_values_def with_agent_def
      by_timestamp_desc_def tie_agents_def tie_insight_def rail_order_spec_def spec_before_def)

text \<open>
  Claim C1, amended. For every map of agent snapshots the rail holds insights of the
  agents, sorted by timestamp descending (not strictly: equal timestamps may follow each
  other), capped to 24: its length is the smaller of 24 and the number of insights, and
  every insight left out is no more recent than any insight shown. Insights of equal
  timestamp keep the order in which the agents and their insights are enumerated. For
  four agents with insights of the timestamps 100, 50, 300, 200 the rail is ordered
  300, 200, 100, 50.
\<close>

theorem rail_sorted_capped_stable:
  "sorted_wrt (\<lambda>a b. timestamp (insight a) \<ge> timestamp (insight b)) (rail_insights ags) \<and>
   length (rail_insights ags) = min 24 (length (all_insights ags)) \<and>
   mset (rail_insights ags) \<subseteq># mset (all_insights ags) \<and>
   (\<forall>x \<in># mset (all_insights ags) - mset (rail_insights ags). \<forall>y \<in> set (rail_insights ags).
      timestamp (insight x) \<le> timestamp (insight y)) \<and>
   (\<forall>t. filter (\<lambda>e. timestamp (insight e) = t) (rail_insights ags) =
        take (length (filter (\<lambda>e. timestamp (insight e) = t) (rail_insights ags)))
          (filter (\<lambda>e. timestamp (insight e) = t) (all_insights ags))) \<and>
   map (\<lambda>e. timestamp (insight e)) (rail_insights four_agents) = [300, 200, 100, 50]"
proof (intro conjI allI ballI)
  let ?S = "array_sort by_timestamp_desc (all_insights ags)"
  have R: "rail_insights ags = take 24 ?S" by (simp add: rail_insights_def)
  have S: "sorted_wrt (\<lambda>a b. timestamp (insight a) \<ge> timestamp (insight b)) ?S"
    by (rule sorted_array_sort)
  show "sorted_wrt (\<lambda>a b. timestamp (insight a) \<ge> timestamp (insight b)) (rail_insights ags)"
    unfolding R using S by (rule sorted_wrt_take)
  have "length ?S = length (all_insights ags)"
    by (metis mset_array_sort size_mset)
  then show "length (rail_insights ags) = min 24 (length (all_insights ags))"
    unfolding R by (simp add: min.commute)
  show "mset (rail_insights ags) \<subseteq># mset (all_insights ags)"
    unfolding R using mset_take_sub[of 24 ?S] by (simp add: mset_array_sort)
  show "timestamp (insight x) \<le> timestamp (insight y)"
    if "x \<in># mset (all_insights ags) - mset (rail_insights ags)" "y \<in> set (rail_insights ags)"
    for x y
  proof -
    have "mset (all_insights ags) - mset (rail_insights ags) = mset (drop 24 ?S)"
      unfolding R using mset_take_drop[of ?S 24] by (simp add: mset_array_sort)
    with that have "x \<in> set (drop 24 ?S)" "y \<in> set (take 24 ?S)" by (simp_all add: R)
    from sorted_wrt_take_drop[OF S this(2) this(1)] show ?thesis .
  qed
  show "filter (\<lambda>e. timestamp (insight e) = t) (rail_insights ags) =
        take (length (filter (\<lambda>e. timestamp (insight e) = t) (rail_insights ags)))
          (filter (\<lambda>e. timestamp (insight e) = t) (all_insights ags))" for t
    unfolding R using filter_take_prefix[of "\<lambda>e. timestamp (insight e) = t" 24 ?S]
    by (simp add: stable_array_sort)
  show "map (\<lambda>e. timestamp (insight e)) (rail_insights four_agents) = [300, 200, 100, 50]"
    by (simp add: rail_insights_def all_insights_def Object_values_def with_agent_def
        by_timestamp_desc_def four_agents_def one_insight_agent_def)
qed

theorem rail_sorted_capped_stable_witness:
  "length (rail_insights tie_agents) = 2 \<and>
   filter (\<lambda>e. timestamp (insight e) = 100) (rail_insights tie_agents) = all_insights tie_agents \<and>
   sorted_wrt (\<lambda>a b. timestamp (insight a) \<ge> timestamp (insight b)) (rail_insights tie_agents)"
  using rail_sorted_capped_stable[of tie_agents]
  by (simp add: rail_insights_def all_insights_def Object_values_def with_agent_def
      by_timestamp_desc_def tie_agents_def tie_insight_def)

subsection \<open>The empty rail\<close>

lemma all_insights_empty_iff:
  "all_insights ags = [] \<longleftrightarrow>
     (\<forall>ag \<in> set (Object_values ags). insights ag = None \<or> insights ag = Some [])"
proof -
  have "with_agent ag = [] \<longleftrightarrow> insights ag = None \<or> insights ag = Some []" for ag
    by (cases "insights ag") (simp_all add: with_agent_def)
  then show ?thesis by (simp add: all_insights_def)
qed

lemma rail_insights_empty_iff: "rail_insights ags = [] \<longleftrightarrow> all_insights ags = []"
proof -
  have "length (array_sort by_timestamp_desc (all_insights ags)) = length (all_insights ags)"
    by (metis mset_array_sort size_mset)
  then show ?thesis by (auto simp add: rail_insights_def)
qed

text \<open>
  Claim C8. \<^verbatim>\<open>FindingsRail\<close> renders nothing exactly when no agent of the snapshot map
  has an insight; the rail exists only when at least one insight exists.
\<close>

theorem no_insight_no_rail:
  "(FindingsRail ags = None) \<longleftrightarrow>
     (\<forall>ag \<in> set (Object_values ags). insights ag = None \<or> insights ag = Some [])"
  by (simp add: FindingsRail_def Let_def rail_insights_empty_iff all_insights_empty_iff)

theorem no_insight_no_rail_witness:
  "FindingsRail [(''a1'', \<lparr>agent_id = ''a1'', gpu = None, insights = None\<rparr>),
                 (''a2'', \<lparr>agent_id = ''a2'', gpu = Some ''H100'', insights = Some []\<rparr>)] = None \<and>
   FindingsRail tie_agents \<noteq> None"
  using no_insight_no_rail[of "[(''a1'', \<lparr>agent_id = ''a1'', gpu = None, insights = None\<rparr>),
                 (''a2'', \<lparr>agent_id = ''a2'', gpu = Some ''H100'', insights = Some []\<rparr>)]"]
    no_insight_no_rail[of tie_agents]
  by (simp add: Object_values_def tie_agents_def)

section \<open>MiniChart: proofs\<close>

subsection \<open>Numbers\<close>

lemma MAX_VALUE_big: "2 ^ 971 \<le> MAX_VALUE"
proof -
  have "(1::real) * 2 ^ 971 \<le> (2 ^ 53 - 1) * 2 ^ 971"
    by (rule mult_right_mono) simp_all
  then show ?thesis by (simp add: MAX_VALUE_def)
qed

lemma MAX_VALUE_1000: "1000 \<le> MAX_VALUE"
proof -
  have "(1000::real) \<le> 2 ^ 10" by simp
  also have "\<dots> \<le> 2 ^ 971" by (rule power_increasing) simp_all
  finally show ?thesis using MAX_VALUE_big by simp
qed

lemma overflow_Num: "\<bar>r\<bar> \<le> MAX_VALUE \<Longrightarrow> overflow r = Num r"
  by (auto simp add: overflow_def)

lemma overflow_small: "\<bar>r\<bar> \<le> 1000 \<Longrightarrow> overflow r = Num r"
  using MAX_VALUE_1000 by (intro overflow_Num) simp

lemma overflow_eq_Num_iff: "overflow r = Num q \<longleftrightarrow> \<bar>r\<bar> \<le> MAX_VALUE \<and> q = r"
  by (auto simp add: overflow_def)

lemma overflow_not_NaN: "overflow r \<noteq> NaN"
  by (simp add: overflow_def)

lemma overflow_zero_iff: "overflow r = Num 0 \<longleftrightarrow> r = 0"
  using MAX_VALUE_1000 by (auto simp add: overflow_def)

lemma finite_values_reals: "finite_values raw = map Num (reals raw)"
  by (induction raw rule: reals.induct) (simp_all add: finite_values_def Number_def)

lemma finite_values_filter: "finite_values raw = filter isFinite raw"
  by (simp add: finite_values_def Number_def cong: map_cong)

lemma js_min2_Num: "js_min2 (Num a) (Num b) = Num (min a b)"
  by (simp add: js_min2_def min_def)

lemma js_max2_Num: "js_max2 (Num a) (Num b) = Num (max a b)"
  by (simp add: js_max2_def max_def)

lemma foldl_min_Num: "foldl js_min2 (Num a) (map Num rs) = Num (fold min rs a)"
  by (induction rs arbitrary: a) (simp_all add: js_min2_Num min.commute)

lemma foldl_max_Num: "foldl js_max2 (Num a) (map Num rs) = Num (fold max rs a)"
  by (induction rs arbitrary: a) (simp_all add: js_max2_Num max.commute)

lemma Math_min_Num: "rs \<noteq> [] \<Longrightarrow> Math_min (map Num rs) = Num (Min (set rs))"
proof (cases rs)
  case Nil
  then show "rs \<noteq> [] \<Longrightarrow> ?thesis" by simp
next
  case (Cons r rs')
  have "js_min2 PosInf (Num r) = Num r" by (simp add: js_min2_def)
  then show ?thesis
    by (simp add: Cons Math_min_def foldl_min_Num Min.set_eq_fold del: set_simps)
qed

lemma Math_max_Num: "rs \<noteq> [] \<Longrightarrow> Math_max (map Num rs) = Num (Max (set rs))"
proof (cases rs)
  case Nil
  then show "rs \<noteq> [] \<Longrightarrow> ?thesis" by simp
next
  case (Cons r rs')
  have "js_max2 NegInf (Num r) = Num r" by (simp add: js_max2_def)
  then show ?thesis
    by (simp add: Cons Math_max_def foldl_max_Num Max.set_eq_fold del: set_simps)
qed

lemma js_sub_Num: "js_sub (Num a) (Num b) = overflow (a - b)"
  by (simp add: js_sub_def)

lemma span_of_Num:
  assumes "rs \<noteq> []"
  shows "span_of (map Num rs) =
           (if Max (set rs) = Min (set rs) then Num 1 else overflow (Max (set rs) - Min (set rs)))"
proof -
  have "overflow (Max (set rs) - Min (set rs)) = Num 0 \<longleftrightarrow> Max (set rs) = Min (set rs)"
    by (simp add: overflow_zero_iff)
  then show ?thesis
    using assms by (simp add: span_of_def Math_min_Num Math_max_Num js_sub_Num js_or_def overflow_not_NaN)
qed

lemma x_divisor_ge1: "1 \<le> x_divisor n"
  by (simp add: x_divisor_def)

lemma set_reals: "set (reals raw) = {r. Num r \<in> set raw}"
  by (induction raw rule: reals.induct) auto

text \<open>
  Claim C3. When the finite values of the series are not empty, \<^verbatim>\<open>max\<close> and \<^verbatim>\<open>min\<close> are
  the greatest and the least of those values and the span is \<open>max - min\<close> (\<^verbatim>\<open>Infinity\<close>
  when the difference overflows), except that it is 1 when \<open>max = min\<close>; it is never
  zero (nor \<^verbatim>\<open>NaN\<close>), and neither is the divisor of the x coordinates, so neither the
  points nor the ticks divide by zero. For the series \<open>[5, 5, 5]\<close> the span is 1, the
  y ticks are at 5, 5.5 and 6, and the three points lie on the base line of the plot
  area; for \<open>[3, 1]\<close> the span is 2.
\<close>

theorem span_floor:
  assumes "vs = finite_values raw" and "vs \<noteq> []"
  shows "vs = map Num (reals raw) \<and> set (reals raw) = {r. Num r \<in> set raw} \<and>
         Math_max vs = Num (Max (set (reals raw))) \<and>
         Math_min vs = Num (Min (set (reals raw))) \<and>
         span_of vs =
           (if Max (set (reals raw)) = Min (set (reals raw)) then Num 1
            else if Max (set (reals raw)) - Min (set (reals raw)) > MAX_VALUE then PosInf
            else Num (Max (set (reals raw)) - Min (set (reals raw)))) \<and>
         span_of vs =
           (if Math_max vs = Math_min vs then Num 1 else js_sub (Math_max vs) (Math_min vs)) \<and>
         span_of vs \<noteq> Num 0 \<and> span_of vs \<noteq> NaN \<and> x_divisor (length vs) \<noteq> 0 \<and>
         span_of (finite_values [Num 5, Num 5, Num 5]) = Num 1 \<and>
         span_of (finite_values [Num 3, Num 1]) = Num 2 \<and>
         map ytick_value (yTicks (Math_min (finite_values [Num 5, Num 5, Num 5]))
                                 (span_of (finite_values [Num 5, Num 5, Num 5])))
           = [Num 5, Num (11 / 2), Num 6] \<and>
         map_option body (MiniChart flat_chart) =
           Some (Polyline [(Num 46, Num 112), (Num 148, Num 112), (Num 250, Num 112)])"
proof -
  from assms have vs: "vs = map Num (reals raw)" and ne: "reals raw \<noteq> []"
    by (simp_all add: finite_values_reals)
  let ?mx = "Max (set (reals raw))" and ?mn = "Min (set (reals raw))"
  have mx: "Math_max vs = Num ?mx" and mn: "Math_min vs = Num ?mn"
    using ne by (simp_all add: vs Math_max_Num Math_min_Num)
  have le: "?mn \<le> ?mx" using ne by simp
  have pos: "0 \<le> MAX_VALUE" using MAX_VALUE_1000 by simp
  have ov: "overflow (?mx - ?mn) = (if ?mx - ?mn > MAX_VALUE then PosInf else Num (?mx - ?mn))"
    using le pos by (simp add: overflow_def)
  have sp: "span_of vs = (if ?mx = ?mn then Num 1
            else if ?mx - ?mn > MAX_VALUE then PosInf else Num (?mx - ?mn))"
    using ne by (simp add: vs span_of_Num ov)
  have five: "finite_values [Num 5, Num 5, Num 5] = map Num [5, 5, 5]"
    by (simp add: finite_values_reals)
  have s5: "span_of (finite_values [Num 5, Num 5, Num 5]) = Num 1"
    unfolding five by (subst span_of_Num) simp_all
  have m5: "Math_min (finite_values [Num 5, Num 5, Num 5]) = Num 5"
    unfolding five by (subst Math_min_Num) simp_all
  have three: "finite_values [Num 3, Num 1] = map Num [3, 1]"
    by (simp add: finite_values_reals)
  have s3: "span_of (finite_values [Num 3, Num 1]) = Num 2"
    unfolding three by (subst span_of_Num) (simp_all add: overflow_small)
  have a: "span_of vs = (if Math_max vs = Math_min vs then Num 1 else js_sub (Math_max vs) (Math_min vs))"
    using ne by (simp add: vs span_of_Num Math_min_Num Math_max_Num js_sub_Num)
  have b: "span_of vs \<noteq> Num 0 \<and> span_of vs \<noteq> NaN"
    using ne by (simp add: vs span_of_Num overflow_zero_iff overflow_not_NaN)
  have c: "x_divisor (length vs) \<noteq> 0" using x_divisor_ge1[of "length vs"] by simp
  have d: "map ytick_value (yTicks (Num 5) (Num 1)) = [Num 5, Num (11 / 2), Num 6]"
    by (simp add: yTicks_def overflow_small)
  have fv: "finite_values [Num 5, Num 5, Num 5] = [Num 5, Num 5, Num 5]"
    by (simp add: finite_values_def Number_def)
  have s5': "span_of [Num 5, Num 5, Num 5] = Num 1" using s5 by (simp only: fv)
  have m5': "Math_min [Num 5, Num 5, Num 5] = Num 5" using m5 by (simp only: fv)
  have e: "map_option body (MiniChart flat_chart) =
           Some (Polyline [(Num 46, Num 112), (Num 148, Num 112), (Num 250, Num 112)])"
    by (simp add: flat_chart_def MiniChart_def first_series_def fv draw_def Let_def pts_def
        point_x_def point_y_def s5' m5' js_sub_def overflow_small x_divisor_def upt_rec
        padding_left_def padding_top_def innerWidth_def innerHeight_def width_def height_def
        padding_right_def padding_bottom_def)
  from d have d': "map ytick_value (yTicks (Math_min (finite_values [Num 5, Num 5, Num 5]))
                                 (span_of (finite_values [Num 5, Num 5, Num 5])))
           = [Num 5, Num (11 / 2), Num 6]"
    by (simp only: s5 m5)
  show ?thesis
    by (intro conjI) (rule vs set_reals mx mn sp a b[THEN conjunct1] b[THEN conjunct2] c s5 s3 d' e)+
qed

theorem span_floor_witness:
  "finite_values [Num 1, NaN, Num 4] = [Num 1, Num 4] \<and>
   Math_max [Num 1, Num 4] = Num 4 \<and> Math_min [Num 1, Num 4] = Num 1 \<and>
   span_of [Num 1, Num 4] = js_sub (Math_max [Num 1, Num 4]) (Math_min [Num 1, Num 4]) \<and>
   span_of [Num 1, Num 4] = Num 3"
proof -
  have h1: "[Num 1, Num 4] = finite_values [Num 1, NaN, Num 4]"
    by (simp add: finite_values_def Number_def)
  have h2: "[Num 1, Num 4] \<noteq> []" by simp
  note t = span_floor[OF h1 h2]
  have r: "Max (set (reals [Num 1, NaN, Num 4])) = 4" "Min (set (reals [Num 1, NaN, Num 4])) = 1"
    by simp_all
  have mx: "Math_max [Num 1, Num 4] = Num 4"
    using t[THEN conjunct2, THEN conjunct2, THEN conjunct1] by (simp only: r)
  have mn: "Math_min [Num 1, Num 4] = Num 1"
    using t[THEN conjunct2, THEN conjunct2, THEN conjunct2, THEN conjunct1] by (simp only: r)
  have a: "span_of [Num 1, Num 4] = js_sub (Math_max [Num 1, Num 4]) (Math_min [Num 1, Num 4])"
    using t[THEN conjunct2, THEN conjunct2, THEN conjunct2, THEN conjunct2, THEN conjunct2,
        THEN conjunct1]
    by (simp add: mx mn)
  have "js_sub (Num 4) (Num 1) = Num 3" by (simp add: js_sub_def overflow_small)
  with a have b: "span_of [Num 1, Num 4] = Num 3" by (simp only: mx mn)
  show ?thesis using h1 mx mn a b by simp
qed

subsection \<open>No chart without finite values\<close>

text \<open>
  Claim C4. \<^verbatim>\<open>MiniChart\<close> returns \<^verbatim>\<open>null\<close>, and raises nothing, when the chart has no
  first series, when the values of that series are not an array or are empty, and when no
  finite value remains; otherwise it draws from the finite values alone, the non-finite
  ones having been filtered out first.
\<close>

theorem no_chart_without_finite_values:
  "(series chart = None \<or> series chart = Some [] \<longrightarrow> MiniChart chart = None) \<and>
   (\<forall>s rest. series chart = Some (s # rest) \<longrightarrow>
      (series_values s = None \<longrightarrow> MiniChart chart = None) \<and>
      (\<forall>raw. series_values s = Some raw \<longrightarrow>
         (raw = [] \<longrightarrow> MiniChart chart = None) \<and>
         (filter isFinite raw = [] \<longrightarrow> MiniChart chart = None) \<and>
         (filter isFinite raw \<noteq> [] \<longrightarrow>
            MiniChart chart = Some (draw chart s (filter isFinite raw)))))"
  by (auto simp add: MiniChart_def first_series_def finite_values_filter Let_def)

theorem no_chart_without_finite_values_witness:
  "MiniChart \<lparr>title = Some ''loss'', chart_type = Bar, labels = None,
               series = Some [\<lparr>series_name = None, series_values = Some [NaN, PosInf]\<rparr>]\<rparr> = None \<and>
   MiniChart \<lparr>title = Some ''loss'', chart_type = Bar, labels = None, series = Some []\<rparr> = None \<and>
   MiniChart \<lparr>title = Some ''loss'', chart_type = Bar, labels = None,
               series = Some [\<lparr>series_name = None, series_values = Some [NaN, Num 2]\<rparr>]\<rparr> \<noteq> None"
  using
    no_chart_without_finite_values[of "\<lparr>title = Some ''loss'', chart_type = Bar, labels = None,
               series = Some [\<lparr>series_name = None, series_values = Some [NaN, PosInf]\<rparr>]\<rparr>"]
    no_chart_without_finite_values[of "\<lparr>title = Some ''loss'', chart_type = Bar, labels = None,
               series = Some []\<rparr>"]
    no_chart_without_finite_values[of "\<lparr>title = Some ''loss'', chart_type = Bar, labels = None,
               series = Some [\<lparr>series_name = None, series_values = Some [NaN, Num 2]\<rparr>]\<rparr>"]
  by simp

subsection \<open>Only the first series\<close>

lemma draw_depends:
  assumes "title c1 = title c2" "chart_type c1 = chart_type c2" "labels c1 = labels c2"
  shows "draw c1 s vs = draw c2 s vs"
  using assms by (simp add: draw_def xLabels_def)

text \<open>
  Claim C7. Two chart specifications with the same title, type, labels and first series
  give the same result of \<^verbatim>\<open>MiniChart\<close>, whatever further series they carry.
\<close>

theorem only_first_series_matters:
  assumes "title c1 = title c2" and "chart_type c1 = chart_type c2"
    and "labels c1 = labels c2" and "first_series c1 = first_series c2"
  shows "MiniChart c1 = MiniChart c2"
  using assms draw_depends[OF assms(1,2,3)]
  by (simp add: MiniChart_def Let_def split: option.splits)

theorem only_first_series_matters_witness:
  "first_series \<lparr>title = None, chart_type = Line, labels = None,
      series = Some [\<lparr>series_name = Some ''acc'', series_values = Some [Num 1, Num 2]\<rparr>,
                     \<lparr>series_name = Some ''loss'', series_values = Some [Num 9]\<rparr>]\<rparr>
     = first_series \<lparr>title = None, chart_type = Line, labels = None,
      series = Some [\<lparr>series_name = Some ''acc'', series_values = Some [Num 1, Num 2]\<rparr>]\<rparr> \<and>
   MiniChart \<lparr>title = None, chart_type = Line, labels = None,
      series = Some [\<lparr>series_name = Some ''acc'', series_values = Some [Num 1, Num 2]\<rparr>,
                     \<lparr>series_name = Some ''loss'', series_values = Some [Num 9]\<rparr>]\<rparr>
     = MiniChart \<lparr>title = None, chart_type = Line, labels = None,
      series = Some [\<lparr>series_name = Some ''acc'', series_values = Some [Num 1, Num 2]\<rparr>]\<rparr>"
  using only_first_series_matters[of
      "\<lparr>title = None, chart_type = Line, labels = None,
      series = Some [\<lparr>series_name = Some ''acc'', series_values = Some [Num 1, Num 2]\<rparr>,
                     \<lparr>series_name = Some ''loss'', series_values = Some [Num 9]\<rparr>]\<rparr>"
      "\<lparr>title = None, chart_type = Line, labels = None,
      series = Some [\<lparr>series_name = Some ''acc'', series_values = Some [Num 1, Num 2]\<rparr>]\<rparr>"]
  by (simp add: first_series_def)

subsection \<open>Category labels\<close>




text \<open>
  On a series whose values are all finite the labels are chosen as the comment on line 49
  says: they are the labels of the chart when there are as many labels as values, and
  the ordinals \<open>1\<close>, \<open>2\<close>, ... otherwise.
\<close>

lemma labels_on_finite_series:
  assumes "list_all isFinite raw"
  shows "xLabels chart (finite_values raw) =
           (case labels chart of
              Some ls \<Rightarrow> if length ls = length raw then ls
                         else map (\<lambda>i. string_of_nat (i + 1)) [0..<length raw]
            | None \<Rightarrow> map (\<lambda>i. string_of_nat (i + 1)) [0..<length raw])"
proof -
  from assms have "filter isFinite raw = raw" by (simp add: list_all_iff)
  then show ?thesis by (simp add: xLabels_def finite_values_filter)
qed

text \<open>
  Claim C5. The labels of the chart specification are to be the category labels only if
  their length matches the length of the series; labels shorter than the values are to
  give the ordinals. The code compares the number of labels with the number of finite
  values instead (line 51, against the comment on line 49). For the values
  \<open>[1, NaN, 3]\<close> and the labels \<open>[a, b]\<close> it keeps the labels: the two points drawn are
  those of the values 1 and 3, and the label \<open>b\<close>, given for the second value, stands
  under the point of the third.
\<close>

theorem short_labels_kept:
  "labels short_labels_chart = Some [''a'', ''b''] \<and>
   map_option series_values (first_series short_labels_chart) = Some (Some [Num 1, NaN, Num 3]) \<and>
   map_option x_axis_labels (MiniChart short_labels_chart) =
     Some [\<lparr>tick_idx = 0, tick_label = Some ''a'', tick_x = Num 46\<rparr>,
           \<lparr>tick_idx = 1, tick_label = Some ''b'', tick_x = Num 250\<rparr>] \<and>
   map_option body (MiniChart short_labels_chart) =
     Some (Polyline [(Num 46, Num 112), (Num 250, Num 14)])"
  by (simp add: short_labels_chart_def MiniChart_def first_series_def finite_values_def Number_def
      draw_def xLabels_def xTicks_def tick_loop.simps tick_step_def tick_at_def maxTicks_def Let_def
      x_divisor_def padding_left_def innerWidth_def width_def padding_right_def
      pts_def point_x_def point_y_def span_of_def Math_min_def Math_max_def js_min2_def
      js_max2_def js_sub_def js_or_def overflow_small padding_top_def innerHeight_def height_def
      padding_bottom_def upt_rec)

subsection \<open>Axis ticks\<close>












subsection \<open>The number format\<close>




























subsection \<open>Coordinates\<close>

lemma point_y_Num:
  assumes "0 < sp" and "0 \<le> v - mn" and "v - mn \<le> sp" and "v - mn \<le> MAX_VALUE"
  shows "\<exists>y. point_y (Num mn) (Num sp) (Num v) = Num y \<and>
             padding_top \<le> y \<and> y \<le> height - padding_bottom"
proof -
  define q where "q = (v - mn) / sp"
  have q: "0 \<le> q" "q \<le> 1" using assms by (simp_all add: q_def)
  have a: "js_sub (Num v) (Num mn) = Num (v - mn)"
    using assms by (simp add: js_sub_Num overflow_Num)
  have "\<bar>q\<bar> \<le> 1000" using q by linarith
  then have b: "js_div (Num (v - mn)) (Num sp) = Num q"
    using assms(1) by (simp add: overflow_small q_def)
  have "\<bar>1 - q\<bar> \<le> 1000" using q by linarith
  then have c: "js_sub (Num 1) (Num q) = Num (1 - q)"
    by (simp add: js_sub_Num overflow_small)
  have p: "0 \<le> (1 - q) * 98" "(1 - q) * 98 \<le> 98" using q by simp_all
  then have "\<bar>(1 - q) * 98\<bar> \<le> 1000" by linarith
  then have d: "js_mul (Num (1 - q)) (Num 98) = Num ((1 - q) * 98)"
    by (simp add: overflow_small)
  have "\<bar>14 + (1 - q) * 98\<bar> \<le> 1000" using p by linarith
  then have e: "js_add (Num 14) (Num ((1 - q) * 98)) = Num (14 + (1 - q) * 98)"
    by (simp add: overflow_small)
  have h: "innerHeight = 98" "padding_top = 14" "height - padding_bottom = 112"
    by (simp_all add: innerHeight_def height_def padding_top_def padding_bottom_def)
  have "point_y (Num mn) (Num sp) (Num v) = Num (14 + (1 - q) * 98)"
    by (simp only: point_y_def a b c d e h)
  moreover have "14 \<le> 14 + (1 - q) * 98" "14 + (1 - q) * 98 \<le> 112" using p by linarith+
  ultimately show ?thesis unfolding h by blast
qed

lemma x_fraction:
  assumes "idx < n"
  shows "0 \<le> real idx / x_divisor n" and "real idx / x_divisor n \<le> 1"
proof -
  have "real idx \<le> real n - 1" using assms by linarith
  then have "real idx \<le> x_divisor n" by (simp add: x_divisor_def)
  moreover have "0 < x_divisor n" by (simp add: x_divisor_def)
  ultimately show "0 \<le> real idx / x_divisor n" "real idx / x_divisor n \<le> 1" by simp_all
qed

lemma point_x_between:
  assumes "idx < n"
  shows "finite_between (point_x n idx) padding_left (width - padding_right)"
proof -
  define f where "f = real idx / x_divisor n"
  have f: "0 \<le> f" "f \<le> 1" using x_fraction[OF assms] by (simp_all add: f_def)
  have "point_x n idx = Num (46 + f * 204)"
    by (simp add: point_x_def f_def innerWidth_def width_def padding_left_def padding_right_def)
  moreover have "46 \<le> 46 + f * 204" "46 + f * 204 \<le> 250" using f by simp_all
  ultimately show ?thesis by (simp add: width_def padding_left_def padding_right_def)
qed

lemma bar_x_between:
  assumes "idx < n"
  shows "finite_between (bar_x n idx) padding_left (width - padding_right)"
proof -
  define f where "f = real idx / x_divisor n"
  have f: "0 \<le> f" "f \<le> 1" using x_fraction[OF assms] by (simp_all add: f_def)
  have "bar_x n idx = Num (46 + f * 204)"
    by (simp add: bar_x_def f_def innerWidth_def width_def padding_left_def padding_right_def)
  moreover have "46 \<le> 46 + f * 204" "46 + f * 204 \<le> 250" using f by simp_all
  ultimately show ?thesis by (simp add: width_def padding_left_def padding_right_def)
qed

lemma isFinite_overflow: "isFinite (overflow r) \<longleftrightarrow> \<bar>r\<bar> \<le> MAX_VALUE"
  by (auto simp add: overflow_def)

lemma point_y_between:
  assumes "rs \<noteq> []" and "v \<in> set rs"
    and "isFinite (js_sub (Math_max (map Num rs)) (Math_min (map Num rs)))"
  shows "finite_between (point_y (Math_min (map Num rs)) (span_of (map Num rs)) (Num v))
           padding_top (height - padding_bottom)"
proof -
  let ?mn = "Min (set rs)" and ?mx = "Max (set rs)"
  have mn: "?mn \<le> v" and mx: "v \<le> ?mx" using assms(2) by simp_all
  have range: "?mx - ?mn \<le> MAX_VALUE"
    using assms(1,3) by (simp add: Math_min_Num Math_max_Num js_sub_Num isFinite_overflow)
  have pos: "0 \<le> MAX_VALUE" using MAX_VALUE_1000 by simp
  have "\<exists>y. point_y (Num ?mn) (span_of (map Num rs)) (Num v) = Num y \<and>
            padding_top \<le> y \<and> y \<le> height - padding_bottom"
  proof (cases "?mx = ?mn")
    case True
    with mn mx have "v - ?mn = 0" by simp
    with pos have "\<exists>y. point_y (Num ?mn) (Num 1) (Num v) = Num y \<and>
            padding_top \<le> y \<and> y \<le> height - padding_bottom"
      by (intro point_y_Num) simp_all
    then show ?thesis using True assms(1) by (simp add: span_of_Num)
  next
    case False
    with mn mx have sp: "0 < ?mx - ?mn" by simp
    have "\<bar>?mx - ?mn\<bar> \<le> MAX_VALUE" using sp range by simp
    then have s: "span_of (map Num rs) = Num (?mx - ?mn)"
      using False assms(1) by (simp add: span_of_Num overflow_Num)
    have "\<exists>y. point_y (Num ?mn) (Num (?mx - ?mn)) (Num v) = Num y \<and>
            padding_top \<le> y \<and> y \<le> height - padding_bottom"
      using sp mn mx range by (intro point_y_Num) simp_all
    then show ?thesis by (simp only: s)
  qed
  then show ?thesis using assms(1) by (auto simp add: Math_min_Num)
qed

text \<open>
  Claim C9, as stated, fails on the code: the difference \<open>max - min\<close> of two finite
  doubles can overflow. For the values \<open>2^1023\<close> and \<open>-2^1023\<close> the span is
  \<^verbatim>\<open>Infinity\<close>, the quotient \<^verbatim>\<open>Infinity / Infinity\<close> is \<^verbatim>\<open>NaN\<close>, and the y coordinate of
  the first point of the polyline is \<^verbatim>\<open>NaN\<close>.
\<close>

theorem huge_range_counterexample:
  "isFinite (Num (2 ^ 1023)) \<and> isFinite (Num (- (2 ^ 1023))) \<and>
   map_option body (MiniChart huge_range_chart) =
     Some (Polyline [(Num 46, NaN), (Num 250, Num 112)])"
  by (simp add: huge_range_chart_def MiniChart_def first_series_def finite_values_def Number_def
      draw_def Let_def pts_def point_x_def point_y_def span_of_def Math_min_def Math_max_def
      js_min2_def js_max2_def js_sub_def js_or_def overflow_def MAX_VALUE_def x_divisor_def
      padding_left_def padding_top_def innerWidth_def innerHeight_def width_def height_def
      padding_right_def padding_bottom_def upt_rec)

text \<open>
  Claim C9, amended. Let the finite values of the series be non-empty and let their range
  \<open>max - min\<close> not overflow (it is a finite number). Then, computed without rounding,
  the x and y coordinates of every point of the polyline and of every bar are finite
  numbers inside the plot area: x between \<^verbatim>\<open>padding.left\<close> and \<^verbatim>\<open>width - padding.right\<close>, y
  between \<^verbatim>\<open>padding.top\<close> and \<^verbatim>\<open>height - padding.bottom\<close>. The divisor
  \<^verbatim>\<open>Math.max(values.length - 1, 1)\<close> is at least 1, and a series of a single point is
  drawn at the lower left corner of the plot area.
\<close>

theorem coordinates_in_plot_area:
  assumes "vs = finite_values raw" and "idx < length vs"
    and "isFinite (js_sub (Math_max vs) (Math_min vs))"
  shows "finite_between (point_x (length vs) idx) padding_left (width - padding_right) \<and>
         finite_between (point_y (Math_min vs) (span_of vs) (vs ! idx))
           padding_top (height - padding_bottom) \<and>
         finite_between (bar_x (length vs) idx) padding_left (width - padding_right) \<and>
         pts vs ! idx = (point_x (length vs) idx, point_y (Math_min vs) (span_of vs) (vs ! idx)) \<and>
         rect_y (bar vs (vs ! idx, idx)) = point_y (Math_min vs) (span_of vs) (vs ! idx) \<and>
         1 \<le> x_divisor (length vs) \<and>
         pts (finite_values [Num 7]) = [(Num padding_left, Num (height - padding_bottom))]"
proof (intro conjI)
  show "finite_between (point_x (length vs) idx) padding_left (width - padding_right)"
    using assms(2) by (rule point_x_between)
  show "finite_between (bar_x (length vs) idx) padding_left (width - padding_right)"
    using assms(2) by (rule bar_x_between)
  have vs: "vs = map Num (reals raw)" using assms(1) by (simp add: finite_values_reals)
  have i: "idx < length (reals raw)" using assms(2) by (simp add: vs)
  then have ne: "reals raw \<noteq> []" by auto
  have v: "vs ! idx = Num (reals raw ! idx)" using i by (simp add: vs)
  have "reals raw ! idx \<in> set (reals raw)" using i by simp
  from point_y_between[OF ne this] assms(3)
  show "finite_between (point_y (Math_min vs) (span_of vs) (vs ! idx))
           padding_top (height - padding_bottom)"
    unfolding v by (simp add: vs)
  show "pts vs ! idx = (point_x (length vs) idx, point_y (Math_min vs) (span_of vs) (vs ! idx))"
    using assms(2) by (simp add: pts_def)
  show "rect_y (bar vs (vs ! idx, idx)) = point_y (Math_min vs) (span_of vs) (vs ! idx)"
    by (simp add: bar_def Let_def)
  show "1 \<le> x_divisor (length vs)" by (rule x_divisor_ge1)
  show "pts (finite_values [Num 7]) = [(Num padding_left, Num (height - padding_bottom))]"
    by (simp add: finite_values_def Number_def pts_def point_x_def point_y_def span_of_def
        Math_min_def Math_max_def js_min2_def js_max2_def js_sub_def js_or_def overflow_small
        x_divisor_def padding_left_def padding_top_def innerHeight_def height_def
        padding_bottom_def)
qed

theorem coordinates_in_plot_area_witness:
  "[Num 1, Num 3] = finite_values [Num 1, NaN, Num 3] \<and> (1::nat) < length [Num 1, Num 3] \<and>
   isFinite (js_sub (Math_max [Num 1, Num 3]) (Math_min [Num 1, Num 3])) \<and>
   pts [Num 1, Num 3] ! 1 = (Num 250, Num 14) \<and>
   finite_between (Num 250) padding_left (width - padding_right) \<and>
   finite_between (Num 14) padding_top (height - padding_bottom)"
  using coordinates_in_plot_area[of "[Num 1, Num 3]" "[Num 1, NaN, Num 3]" 1]
  by (simp add: finite_values_def Number_def pts_def point_x_def point_y_def span_of_def
      Math_min_def Math_max_def js_min2_def js_max2_def js_sub_def js_or_def overflow_small
      x_divisor_def padding_left_def padding_top_def innerHeight_def innerWidth_def height_def
      width_def padding_right_def padding_bottom_def)

end
